theory Spec2Isabelle
  imports Complex_Main "HOL-Library.Log_Nat"
begin

section \<open>JavaScript numbers\<close>

text \<open>
  Prices and quantities are values of the JavaScript type Number: IEEE 754 binary64.
  A finite such value is a rational number, and \<^verbatim>\<open>+\<close> and \<^verbatim>\<open>*\<close> yield the exact result
  rounded to the nearest representable value, ties to the even significand. The
  rounding below has 53 bits of significand and no exponent under \<open>-1074\<close>, as binary64
  has. The infinities and NaN are left out: a result of magnitude \<open>2 ^ 1024\<close> or more,
  which the source turns into an infinity, is not modelled, and the properties below
  bound the values they speak of. Comparisons of finite values are exact.
\<close>

type_synonym number = rat

text \<open>The integer \<open>l\<close> with \<open>2 ^ l \<le> \<bar>x\<bar> < 2 ^ (l + 1)\<close>, for \<open>x\<close> other than 0.\<close>

definition floor_log2 :: "rat \<Rightarrow> int" where
  "floor_log2 x =
     (if 1 \<le> \<bar>x\<bar> then bitlen \<lfloor>\<bar>x\<bar>\<rfloor> - 1
      else let k = bitlen \<lfloor>1 / \<bar>x\<bar>\<rfloor> - 1
           in if 1 / \<bar>x\<bar> = 2 powi k then - k else - k - 1)"

definition round_half_even :: "rat \<Rightarrow> int" where
  "round_half_even x =
     (let f = \<lfloor>x\<rfloor>; d = x - of_int f
      in if d < 1 / 2 then f
         else if 1 / 2 < d then f + 1
         else if even f then f else f + 1)"

definition binary64 :: "rat \<Rightarrow> number" where
  "binary64 x =
     (if x = 0 then 0
      else let e = max (floor_log2 x - 52) (- 1074)
           in of_int (round_half_even (x / 2 powi e)) * 2 powi e)"

definition js_add :: "number \<Rightarrow> number \<Rightarrow> number" where
  "js_add a b = binary64 (a + b)"

definition js_mul :: "number \<Rightarrow> number \<Rightarrow> number" where
  "js_mul a b = binary64 (a * b)"


section \<open>Data model of the storefront client (src/frontend/src/App.js)\<close>

text \<open>
  A product as the catalogue endpoints deliver it. Only the four fields that
  \<^verbatim>\<open>addToCart\<close> reads are kept. The field \<^verbatim>\<open>id\<close> of the source is called
  \<open>id_product\<close> here, since \<open>id\<close> is the identity function of HOL. Prices and
  quantities are JavaScript numbers.
\<close>

record product =
  id_product :: string
  name :: string
  image_url :: string
  price_product :: number

text \<open>A line item of the cart: the object literal built in \<^verbatim>\<open>addToCart\<close>.\<close>

record line_item =
  product_id :: string
  product_name :: string
  product_image :: string
  quantity :: number
  price :: number

type_synonym cart = "line_item list"


section \<open>Cart Store: the updaters of \<^verbatim>\<open>CartProvider\<close>\<close>

text \<open>
  Each operation of the source hands a function from the previous item list to the
  next one to \<^verbatim>\<open>setCartItems\<close>. The definitions below are those functions, with the
  previous list as first argument. The quantity of \<^verbatim>\<open>addToCart\<close> is always given here;
  the source defaults it to 1, which is what both product pages pass. The test
  \<^verbatim>\<open>if (existing)\<close> succeeds exactly when \<^verbatim>\<open>find\<close> has found an item.
\<close>

definition addToCart :: "cart \<Rightarrow> product \<Rightarrow> number \<Rightarrow> cart" where
  "addToCart prev product qty =
     (case find (\<lambda>item. product_id item = id_product product) prev of
        Some existing \<Rightarrow>
          map (\<lambda>item. if product_id item = id_product product
                       then item\<lparr>quantity := js_add (quantity item) qty\<rparr>
                       else item) prev
      | None \<Rightarrow>
          prev @ [\<lparr>product_id = id_product product,
                    product_name = name product,
                    product_image = image_url product,
                    quantity = qty,
                    price = price_product product\<rparr>])"

definition removeFromCart :: "cart \<Rightarrow> string \<Rightarrow> cart" where
  "removeFromCart prev productId = filter (\<lambda>item. product_id item \<noteq> productId) prev"

definition updateQuantity :: "cart \<Rightarrow> string \<Rightarrow> number \<Rightarrow> cart" where
  "updateQuantity prev productId qty =
     (if qty \<le> 0 then removeFromCart prev productId
      else map (\<lambda>item. if product_id item = productId
                        then item\<lparr>quantity := qty\<rparr>
                        else item) prev)"

definition clearCart :: "cart \<Rightarrow> cart" where
  "clearCart prev = []"

text \<open>The two aggregates: \<^verbatim>\<open>reduce\<close> from 0, left to right, in the arithmetic of numbers.\<close>

definition getTotalItems :: "cart \<Rightarrow> number" where
  "getTotalItems cartItems = foldl (\<lambda>total item. js_add total (quantity item)) 0 cartItems"

definition getTotalPrice :: "cart \<Rightarrow> number" where
  "getTotalPrice cartItems =
     foldl (\<lambda>total item. js_add total (js_mul (price item) (quantity item))) 0 cartItems"


subsection \<open>Carts reachable through the operations\<close>

text \<open>
  The cart starts as the empty list (\<^verbatim>\<open>useState([])\<close>) and changes only through
  the four operations of the provider. A reachable cart is the result of running a
  list of such calls from the empty cart.
\<close>

datatype cart_op =
    Add product number
  | Remove string
  | SetQuantity string number
  | Clear

fun apply_cart_op :: "cart \<Rightarrow> cart_op \<Rightarrow> cart" where
  "apply_cart_op c (Add p q) = addToCart c p q"
| "apply_cart_op c (Remove pid) = removeFromCart c pid"
| "apply_cart_op c (SetQuantity pid q) = updateQuantity c pid q"
| "apply_cart_op c Clear = clearCart c"

definition run_cart_ops :: "cart_op list \<Rightarrow> cart" where
  "run_cart_ops ops = foldl apply_cart_op [] ops"

text \<open>
  Vocabulary of the merge property: the same product added once for every quantity
  of a list, and the quantity a cart holds for a product identifier (0 when it holds
  no such item; \<^verbatim>\<open>find\<close> yields the first match, as in the source).
\<close>

definition add_repeatedly :: "cart \<Rightarrow> product \<Rightarrow> number list \<Rightarrow> cart" where
  "add_repeatedly c p qs = foldl (\<lambda>prev q. addToCart prev p q) c qs"

definition quantity_in :: "cart \<Rightarrow> string \<Rightarrow> number" where
  "quantity_in c pid =
     (case find (\<lambda>item. product_id item = pid) c of
        Some item \<Rightarrow> quantity item
      | None \<Rightarrow> 0)"


section \<open>Network results\<close>

text \<open>
  An \<^verbatim>\<open>axios\<close> call either rejects (network failure, or a status outside 2xx) or
  resolves with a response whose \<^verbatim>\<open>data\<close> is the parsed body. \<open>Resolved None\<close> is a body
  that is \<^verbatim>\<open>null\<close>: reading a property of it throws inside the \<^verbatim>\<open>try\<close> block, which
  lands in the same \<^verbatim>\<open>catch\<close> as a rejection. A field the body lacks is \<open>None\<close>
  (\<^verbatim>\<open>undefined\<close> in the source, equal to no string and falsy).
\<close>

datatype 'a http_result = Rejected | Resolved "'a option"

record status_data =
  status :: "string option"
  payment_status :: "string option"

record session_data =
  url :: "string option"


section \<open>Payment Status Reconciler: \<^verbatim>\<open>CheckoutSuccess\<close>\<close>

text \<open>The values the state \<^verbatim>\<open>paymentStatus\<close> takes; \<^verbatim>\<open>'checking'\<close> is the initial one.\<close>

datatype paymentStatus = Checking | Success | Expired | Error | Timeout

text \<open>
  What the component does to the outside, in the order it does it: the status query,
  the state setters, the timer and the console. The effects listed after a
  \<open>SetTimeout\<close> are those of the callback the timer runs when the delay is over.
\<close>

datatype reconciler_effect =
    AxiosGetStatus string
  | SetPaymentStatus paymentStatus
  | SetSessionId string
  | SetTimeout nat
  | ConsoleError string

definition maxAttempts :: nat where
  "maxAttempts = 5"

definition pollInterval :: nat where
  "pollInterval = 2000"

text \<open>
  \<^verbatim>\<open>pollPaymentStatus(sessionId, attempts = 0)\<close>. An invocation with counter
  \<open>attempts\<close> issues at most one query, so the Session Service is given as the
  function \<open>server\<close> from the counter to the result of the query issued under it.
  The recursion is the self-scheduling through \<^verbatim>\<open>setTimeout\<close>; it ends because the
  counter grows towards \<open>maxAttempts\<close>.
\<close>

function pollPaymentStatus ::
  "(nat \<Rightarrow> status_data http_result) \<Rightarrow> string \<Rightarrow> nat \<Rightarrow> reconciler_effect list" where
  "pollPaymentStatus server sessionId attempts =
     (if attempts \<ge> maxAttempts then [SetPaymentStatus Timeout]
      else AxiosGetStatus sessionId #
        (case server attempts of
           Resolved (Some d) \<Rightarrow>
             if payment_status d = Some ''paid'' then [SetPaymentStatus Success]
             else if status d = Some ''expired'' then [SetPaymentStatus Expired]
             else SetTimeout pollInterval # pollPaymentStatus server sessionId (attempts + 1)
         | _ \<Rightarrow>
             [ConsoleError ''Error checking payment status:'', SetPaymentStatus Error]))"
  by pat_completeness auto
termination
  by (relation "measure (\<lambda>(server, sessionId, attempts). maxAttempts - attempts)") auto

declare pollPaymentStatus.simps [simp del]

text \<open>
  The effect hook of the success page. \<open>urlParams\<close> is the parsed query string of the
  location, in order; \<^verbatim>\<open>URLSearchParams.get\<close> yields the first value stored under a
  name, or \<^verbatim>\<open>null\<close>. The test \<^verbatim>\<open>if (sessionIdParam)\<close> fails for \<^verbatim>\<open>null\<close> and for the
  empty string.
\<close>

definition urlParams_get :: "(string \<times> string) list \<Rightarrow> string \<Rightarrow> string option" where
  "urlParams_get urlParams key = map_of urlParams key"

definition CheckoutSuccess_useEffect ::
  "(nat \<Rightarrow> status_data http_result) \<Rightarrow> (string \<times> string) list \<Rightarrow> reconciler_effect list" where
  "CheckoutSuccess_useEffect server urlParams =
     (case urlParams_get urlParams ''session_id'' of
        None \<Rightarrow> []
      | Some sessionIdParam \<Rightarrow>
          if sessionIdParam = [] then []
          else SetSessionId sessionIdParam # pollPaymentStatus server sessionIdParam 0)"

text \<open>
  The hook depends on \<^verbatim>\<open>[location]\<close>: it runs when the page is mounted and again
  whenever the location changes while the page stays mounted. It has no clean-up and
  does not look at \<^verbatim>\<open>paymentStatus\<close>. The effects of a page whose hook runs once for
  each element of a list, each run over before the next location change, are the
  effects of the runs in order; every run comes with the query string of its
  location and the answers the Session Service gives during it.
\<close>

definition CheckoutSuccess_hook_runs ::
  "((nat \<Rightarrow> status_data http_result) \<times> (string \<times> string) list) list \<Rightarrow>
     reconciler_effect list" where
  "CheckoutSuccess_hook_runs runs =
     concat (map (\<lambda>(server, urlParams). CheckoutSuccess_useEffect server urlParams) runs)"

text \<open>
  What the success page shows for a value of \<^verbatim>\<open>paymentStatus\<close>: one panel for each
  conditional block of the returned markup, with its heading, its paragraph and its
  button (label, and the target assigned to \<^verbatim>\<open>window.location.href\<close>).
\<close>

record panel =
  heading :: string
  message :: string
  button :: "(string \<times> string) option"

definition CheckoutSuccess_render :: "paymentStatus \<Rightarrow> panel list" where
  "CheckoutSuccess_render st =
     (if st = Checking then
        [\<lparr>heading = ''Processing Payment...'',
          message = ''Please wait while we confirm your payment.'',
          button = None\<rparr>]
      else []) @
     (if st = Success then
        [\<lparr>heading = ''Payment Successful!'',
          message = ''Thank you for your purchase. Your spices are on their way!'',
          button = Some (''Continue Shopping'', ''/'')\<rparr>]
      else []) @
     (if st = Error then
        [\<lparr>heading = ''Payment Error'',
          message = ''There was an error processing your payment. Please try again.'',
          button = Some (''Back to Shop'', ''/'')\<rparr>]
      else [])"


section \<open>Checkout Initiator: \<^verbatim>\<open>handleCheckout\<close> of \<^verbatim>\<open>CartSidebar\<close>\<close>

text \<open>
  The request body. Its items carry the fields \<^verbatim>\<open>product_id\<close>, \<^verbatim>\<open>quantity\<close> and
  \<^verbatim>\<open>price\<close> of the source, suffixed here to keep them apart from the fields of a
  line item.
\<close>

record checkout_item =
  product_id_item :: string
  quantity_item :: number
  price_item :: number

record checkout_request =
  items :: "checkout_item list"
  customer_email :: string
  origin_url :: string

datatype checkout_effect =
    SetIsCheckingOut bool
  | AxiosPostSession checkout_request
  | SetLocationHref string
  | ConsoleErrorCheckout string
  | Alert string

text \<open>The state \<^verbatim>\<open>handleCheckout\<close> can see: the cart of the context and the two hooks.\<close>

record checkout_state =
  cartItems :: cart
  customerEmail :: string
  isCheckingOut :: bool

text \<open>
  \<^verbatim>\<open>handleCheckout\<close>, given the origin of the window and the result the Session
  Service would give to the request. It returns the state it leaves and its effects
  in order; the \<^verbatim>\<open>finally\<close> block runs on every path behind the guard.
\<close>

definition handleCheckout ::
  "checkout_state \<Rightarrow> string \<Rightarrow> session_data http_result \<Rightarrow>
     checkout_state \<times> checkout_effect list" where
  "handleCheckout s origin response =
     (if customerEmail s = [] \<or> cartItems s = [] then (s, [])
      else
        let checkoutItems =
              map (\<lambda>item. \<lparr>product_id_item = product_id item,
                            quantity_item = quantity item,
                            price_item = price item\<rparr>) (cartItems s);
            request = \<lparr>items = checkoutItems,
                       customer_email = customerEmail s,
                       origin_url = origin\<rparr>;
            outcome =
              (case response of
                 Resolved (Some d) \<Rightarrow>
                   (case url d of
                      Some u \<Rightarrow> if u \<noteq> [] then [SetLocationHref u] else []
                    | None \<Rightarrow> [])
               | _ \<Rightarrow>
                   [ConsoleErrorCheckout ''Checkout failed:'',
                    Alert ''Checkout failed. Please try again.''])
        in (s\<lparr>isCheckingOut := False\<rparr>,
            [SetIsCheckingOut True, AxiosPostSession request] @ outcome @
            [SetIsCheckingOut False]))"


section \<open>Vocabulary of the properties\<close>

text \<open>
  The status a run leaves in \<^verbatim>\<open>paymentStatus\<close>: the setters applied in order to the
  initial value.
\<close>

definition final_status :: "reconciler_effect list \<Rightarrow> paymentStatus" where
  "final_status effects =
     foldl (\<lambda>st e. case e of SetPaymentStatus st' \<Rightarrow> st' | _ \<Rightarrow> st) Checking effects"

fun terminal :: "paymentStatus \<Rightarrow> bool" where
  "terminal Checking = False"
| "terminal _ = True"

fun is_query :: "reconciler_effect \<Rightarrow> bool" where
  "is_query (AxiosGetStatus _) = True"
| "is_query _ = False"

text \<open>A query result that is neither paid nor expired: the session is still open.\<close>

definition pending :: "status_data http_result \<Rightarrow> bool" where
  "pending r =
     (case r of
        Resolved (Some d) \<Rightarrow> payment_status d \<noteq> Some ''paid'' \<and> status d \<noteq> Some ''expired''
      | _ \<Rightarrow> False)"

text \<open>A view tells the user of a failure when a panel has a text and a button.\<close>

definition reports_failure :: "panel list \<Rightarrow> bool" where
  "reports_failure panels = list_ex (\<lambda>p. message p \<noteq> [] \<and> button p \<noteq> None) panels"

text \<open>
  Example data for the concrete instances below. The price of \<open>pepper\<close> is the number
  that the literal \<^verbatim>\<open>0.1\<close> denotes, and the price of \<open>saffron\<close> is \<open>2 ^ 53\<close>.
\<close>

definition chili :: product where
  "chili = \<lparr>id_product = ''p-chili'', name = ''Chili Powder'',
            image_url = ''/img/chili.jpg'', price_product = 599\<rparr>"

definition turmeric :: product where
  "turmeric = \<lparr>id_product = ''p-turmeric'', name = ''Turmeric Powder'',
               image_url = ''/img/turmeric.jpg'', price_product = 450\<rparr>"



definition open_unpaid :: "status_data http_result" where
  "open_unpaid = Resolved (Some \<lparr>status = Some ''open'', payment_status = Some ''unpaid''\<rparr>)"

definition paid_complete :: "status_data http_result" where
  "paid_complete = Resolved (Some \<lparr>status = Some ''complete'', payment_status = Some ''paid''\<rparr>)"

definition expired_unpaid :: "status_data http_result" where
  "expired_unpaid = Resolved (Some \<lparr>status = Some ''expired'', payment_status = Some ''unpaid''\<rparr>)"


section \<open>JavaScript numbers: properties\<close>

text \<open>
  The rounding is what binary64 prescribes: \<open>floor_log2\<close> is the binary exponent of its
  argument, the result of \<open>binary64\<close> is a multiple of the unit in the last place of
  that binade and lies within half a unit of the exact value, and whole numbers up to
  \<open>2 ^ 53\<close> are kept as they are.
\<close>

lemma bitlen_floor_bounds:
  fixes y :: rat
  assumes "1 \<le> y"
  shows "1 \<le> bitlen \<lfloor>y\<rfloor>"
    and "2 ^ nat (bitlen \<lfloor>y\<rfloor> - 1) \<le> y"
    and "y < 2 ^ nat (bitlen \<lfloor>y\<rfloor>)"
proof -
  let ?m = "\<lfloor>y\<rfloor>"
  from assms have m: "0 < ?m"
    by simp
  then have "bitlen ?m \<noteq> 0"
    by (simp add: bitlen_eq_zero_iff)
  with bitlen_nonneg [of ?m] show "1 \<le> bitlen ?m"
    by simp
  from bitlen_bounds [OF m] have lo: "2 ^ nat (bitlen ?m - 1) \<le> ?m"
    and hi: "?m + 1 \<le> 2 ^ nat (bitlen ?m)"
    by simp_all
  from lo have "(of_int (2 ^ nat (bitlen ?m - 1)) :: rat) \<le> of_int ?m"
    by (simp only: of_int_le_iff)
  also have "\<dots> \<le> y"
    by (rule of_int_floor_le)
  finally show "2 ^ nat (bitlen ?m - 1) \<le> y"
    by simp
  have "y < of_int (?m + 1)"
    by simp linarith
  also from hi have "(of_int (?m + 1) :: rat) \<le> of_int (2 ^ nat (bitlen ?m))"
    by (simp only: of_int_le_iff)
  finally show "y < 2 ^ nat (bitlen ?m)"
    by simp
qed

lemma floor_log2_bounds:
  assumes "x \<noteq> 0"
  shows "2 powi floor_log2 x \<le> \<bar>x\<bar>" and "\<bar>x\<bar> < 2 powi (floor_log2 x + 1)"
proof -
  have "2 powi floor_log2 x \<le> \<bar>x\<bar> \<and> \<bar>x\<bar> < 2 powi (floor_log2 x + 1)"
  proof (cases "1 \<le> \<bar>x\<bar>")
    case True
    let ?b = "bitlen \<lfloor>\<bar>x\<bar>\<rfloor>"
    from bitlen_floor_bounds [OF True]
    have b: "1 \<le> ?b" and lo: "2 ^ nat (?b - 1) \<le> \<bar>x\<bar>" and hi: "\<bar>x\<bar> < 2 ^ nat ?b"
      by simp_all
    from b have "(2::rat) powi (?b - 1) = 2 ^ nat (?b - 1)" "(2::rat) powi (?b - 1 + 1) = 2 ^ nat ?b"
      by (simp_all add: power_int_def)
    with lo hi True show ?thesis
      by (simp add: floor_log2_def)
  next
    case False
    define y where "y = 1 / \<bar>x\<bar>"
    from False assms have y1: "1 \<le> y" and x: "\<bar>x\<bar> = 1 / y" and xpos: "0 < \<bar>x\<bar>"
      by (simp_all add: y_def field_simps)
    let ?b = "bitlen \<lfloor>y\<rfloor>"
    define k where "k = ?b - 1"
    from bitlen_floor_bounds [OF y1]
    have b: "1 \<le> ?b" and lo: "2 ^ nat (?b - 1) \<le> y" and hi: "y < 2 ^ nat ?b"
      by simp_all
    from b have k0: "0 \<le> k"
      by (simp add: k_def)
    have pk: "(2::rat) powi k = 2 ^ nat k" "(2::rat) powi (- k) = 1 / 2 ^ nat k"
      "(2::rat) powi (- k - 1) = 1 / 2 ^ nat ?b"
      using k0 b by (simp_all add: power_int_def k_def field_simps nat_diff_distrib flip: power_Suc)
    have lo': "2 ^ nat k \<le> y" and hi': "y < 2 ^ nat ?b"
      using lo hi by (simp_all add: k_def)
    have fl: "floor_log2 x = (if y = 2 powi k then - k else - k - 1)"
      using False by (simp add: floor_log2_def y_def k_def Let_def)
    show ?thesis
    proof (cases "y = 2 powi k")
      case True
      then have "\<bar>x\<bar> = 2 powi (- k)"
        by (simp add: x pk)
      moreover have "(2::rat) powi (- k) < 2 powi (- k + 1)"
        by (rule power_int_strict_increasing) simp_all
      ultimately show ?thesis
        using True by (simp add: fl)
    next
      case ne: False
      with lo' have "2 ^ nat k < y"
        by (simp add: pk)
      then have up: "\<bar>x\<bar> < 1 / 2 ^ nat k"
        using y1 by (simp add: x field_simps)
      from hi' have low: "1 / 2 ^ nat ?b < \<bar>x\<bar>"
        using y1 by (simp add: x field_simps)
      have "(2::rat) powi (- k - 1 + 1) = 1 / 2 ^ nat k"
        using pk(2) by simp
      with up low ne show ?thesis
        by (simp add: fl pk(3))
    qed
  qed
  then show "2 powi floor_log2 x \<le> \<bar>x\<bar>" and "\<bar>x\<bar> < 2 powi (floor_log2 x + 1)"
    by simp_all
qed

lemma round_half_even_nearest:
  "\<bar>of_int (round_half_even x) - x\<bar> \<le> 1 / 2"
proof -
  define d where "d = x - of_int \<lfloor>x\<rfloor>"
  have d: "0 \<le> d" "d < 1"
    unfolding d_def by linarith+
  have r: "of_int (round_half_even x) - x =
      (if d < 1 / 2 then - d else if 1 / 2 < d then 1 - d else if even \<lfloor>x\<rfloor> then - d else 1 - d)"
    by (simp add: round_half_even_def Let_def d_def)
  show ?thesis
    unfolding r using d by (auto simp: abs_if)
qed

lemma binary64_nearest:
  assumes "x \<noteq> 0"
  shows "\<bar>binary64 x - x\<bar> \<le> 2 powi (max (floor_log2 x - 52) (- 1074)) / 2"
proof -
  define e where "e = max (floor_log2 x - 52) (- 1074)"
  have pos: "(0::rat) < 2 powi e"
    by simp
  have "binary64 x - x = (of_int (round_half_even (x / 2 powi e)) - x / 2 powi e) * 2 powi e"
    using assms pos by (simp add: binary64_def e_def Let_def field_simps)
  then have "\<bar>binary64 x - x\<bar> = \<bar>of_int (round_half_even (x / 2 powi e)) - x / 2 powi e\<bar> * 2 powi e"
    using pos by (simp add: abs_mult)
  also have "\<dots> \<le> 1 / 2 * 2 powi e"
    using round_half_even_nearest [of "x / 2 powi e"] pos
    by (intro mult_right_mono) simp_all
  finally show ?thesis
    by (simp add: e_def)
qed

lemma round_half_even_of_int: "round_half_even (of_int m) = m"
  by (simp add: round_half_even_def)

lemma floor_log2_lower:
  assumes "1 \<le> \<bar>x\<bar>"
  shows "0 \<le> floor_log2 x" and "2 ^ nat (floor_log2 x) \<le> \<bar>x\<bar>"
proof -
  let ?m = "\<lfloor>\<bar>x\<bar>\<rfloor>"
  from assms have m: "0 < ?m"
    by simp
  then have "bitlen ?m \<noteq> 0"
    by (simp add: bitlen_eq_zero_iff)
  with bitlen_nonneg [of ?m] have b: "1 \<le> bitlen ?m"
    by simp
  with assms show "0 \<le> floor_log2 x"
    by (simp add: floor_log2_def)
  from bitlen_bounds [OF m] have "2 ^ nat (bitlen ?m - 1) \<le> ?m"
    by simp
  then have "(of_int (2 ^ nat (bitlen ?m - 1)) :: rat) \<le> of_int ?m"
    by (simp only: of_int_le_iff)
  also have "\<dots> \<le> \<bar>x\<bar>"
    by (rule of_int_floor_le)
  finally show "2 ^ nat (floor_log2 x) \<le> \<bar>x\<bar>"
    using assms by (simp add: floor_log2_def)
qed

lemma binary64_of_int:
  assumes "\<bar>n\<bar> \<le> 2 ^ 53"
  shows "binary64 (of_int n) = of_int n"
proof (cases "n = 0")
  case True
  then show ?thesis by (simp add: binary64_def)
next
  case False
  let ?x = "of_int n :: rat"
  let ?l = "floor_log2 ?x"
  from False have one: "1 \<le> \<bar>?x\<bar>"
    by (simp flip: of_int_abs)
  have l0: "0 \<le> ?l" and low: "2 ^ nat ?l \<le> \<bar>?x\<bar>"
    using floor_log2_lower [OF one] by simp_all
  have "(of_int \<bar>n\<bar> :: rat) \<le> of_int (2 ^ 53)"
    using assms by (simp only: of_int_le_iff)
  then have up: "\<bar>?x\<bar> \<le> 2 ^ 53"
    by simp
  from low up have "(2::rat) ^ nat ?l \<le> 2 ^ 53"
    by (rule order_trans)
  then have "nat ?l \<le> 53"
    by (rule power_le_imp_le_exp [of 2, rotated]) simp
  with l0 have l53: "?l \<le> 53"
    by simp
  define e where "e = max (?l - 52) (- 1074)"
  have b64: "binary64 ?x = of_int (round_half_even (?x / 2 powi e)) * 2 powi e"
    using False by (simp add: binary64_def e_def Let_def)
  show ?thesis
  proof (cases "e \<le> 0")
    case True
    then have p: "(2::rat) powi e = 1 / 2 ^ nat (- e)"
      by (simp add: power_int_def divide_simps)
    have "?x / 2 powi e = of_int (n * 2 ^ nat (- e))"
      by (simp add: p)
    then have "round_half_even (?x / 2 powi e) = n * 2 ^ nat (- e)"
      by (simp only: round_half_even_of_int)
    then show ?thesis
      by (simp add: b64 p)
  next
    case False
    with l53 l0 have e1: "e = 1" and l: "?l = 53"
      by (simp_all add: e_def)
    from low l have "(2::rat) ^ 53 \<le> \<bar>?x\<bar>"
      by simp
    with up have "\<bar>?x\<bar> = 2 ^ 53"
      by simp
    then have "(of_int \<bar>n\<bar> :: rat) = of_int (2 ^ 53)"
      by simp
    then have "\<bar>n\<bar> = 2 ^ 53"
      by (simp only: of_int_eq_iff)
    then have "even \<bar>n\<bar>"
      by simp
    then have "even n"
      by (simp add: abs_if split: if_splits)
    then have "n = 2 * (n div 2)"
      by simp
    then have "?x / 2 powi e = of_int (n div 2)"
      by (simp add: e1)
    then have "round_half_even (?x / 2 powi e) = n div 2"
      by (simp only: round_half_even_of_int)
    with \<open>n = 2 * (n div 2)\<close> show ?thesis
      by (simp add: b64 e1)
  qed
qed

lemma js_add_of_int:
  "\<bar>a + b\<bar> \<le> 2 ^ 53 \<Longrightarrow> js_add (of_int a) (of_int b) = of_int (a + b)"
  using binary64_of_int [of "a + b"] by (simp add: js_add_def)



section \<open>Cart Store: properties\<close>

lemma updateQuantity_ids:
  "0 < qty \<Longrightarrow> map product_id (updateQuantity c pid qty) = map product_id c"
  by (induction c) (simp_all add: updateQuantity_def)

lemma find_id_None:
  "find (\<lambda>item. product_id item = pid) c = None \<longleftrightarrow> pid \<notin> product_id ` set c"
  by (induction c) auto

lemma addToCart_ids:
  "map product_id (addToCart c p q) =
     (if id_product p \<in> product_id ` set c then map product_id c
      else map product_id c @ [id_product p])"
proof (cases "find (\<lambda>item. product_id item = id_product p) c")
  case None
  then have "id_product p \<notin> product_id ` set c"
    by (simp add: find_id_None)
  with None show ?thesis
    by (simp add: addToCart_def)
next
  case (Some existing)
  then have "find (\<lambda>item. product_id item = id_product p) c \<noteq> None"
    by simp
  then have "id_product p \<in> product_id ` set c"
    by (simp add: find_id_None)
  moreover have "map product_id (map (\<lambda>item. if product_id item = id_product p
                       then item\<lparr>quantity := js_add (quantity item) q\<rparr>
                       else item) c) = map product_id c"
    by (induction c) simp_all
  ultimately show ?thesis using Some
    by (simp add: addToCart_def)
qed

lemma removeFromCart_ids:
  "map product_id (removeFromCart c pid) = filter (\<lambda>i. i \<noteq> pid) (map product_id c)"
  by (induction c) (simp_all add: removeFromCart_def)

lemma updateQuantity_ids_cases:
  "map product_id (updateQuantity c pid q) =
     (if q \<le> 0 then filter (\<lambda>i. i \<noteq> pid) (map product_id c) else map product_id c)"
  by (simp add: updateQuantity_ids removeFromCart_ids) (simp add: updateQuantity_def removeFromCart_ids)

lemma apply_cart_op_distinct:
  "distinct (map product_id c) \<Longrightarrow> distinct (map product_id (apply_cart_op c op))"
  by (cases op) (auto simp: addToCart_ids removeFromCart_ids updateQuantity_ids_cases clearCart_def)

lemma foldl_cart_ops_distinct:
  "distinct (map product_id c) \<Longrightarrow> distinct (map product_id (foldl apply_cart_op c ops))"
  by (induction ops arbitrary: c) (simp_all add: apply_cart_op_distinct)

lemma run_cart_ops_distinct: "distinct (map product_id (run_cart_ops ops))"
  by (simp add: run_cart_ops_def foldl_cart_ops_distinct)

lemma find_snoc:
  "find P (xs @ [y]) = (case find P xs of None \<Rightarrow> (if P y then Some y else None) | Some x \<Rightarrow> Some x)"
  by (induction xs) simp_all

lemma quantity_in_addToCart:
  "quantity_in (addToCart c p q) (id_product p) =
     (if id_product p \<in> product_id ` set c then js_add (quantity_in c (id_product p)) q
      else q)"
proof (cases "find (\<lambda>item. product_id item = id_product p) c")
  case None
  moreover from None have "id_product p \<notin> product_id ` set c"
    by (simp add: find_id_None)
  ultimately show ?thesis
    by (simp add: addToCart_def quantity_in_def find_snoc)
next
  case (Some existing)
  then have "find (\<lambda>item. product_id item = id_product p) c \<noteq> None"
    by simp
  then have present: "id_product p \<in> product_id ` set c"
    by (simp add: find_id_None)
  have "quantity_in (map (\<lambda>item. if product_id item = id_product p
                       then item\<lparr>quantity := js_add (quantity item) q\<rparr>
                       else item) c) (id_product p) = js_add (quantity_in c (id_product p)) q"
    using Some by (induction c) (auto simp: quantity_in_def)
  with Some present show ?thesis
    by (simp add: addToCart_def)
qed

lemma quantity_in_absent:
  "pid \<notin> product_id ` set c \<Longrightarrow> quantity_in c pid = 0"
  using find_id_None [of pid c] by (simp add: quantity_in_def)

lemma quantity_in_addToCart_int:
  assumes "quantity_in c (id_product p) = of_int k" and "0 \<le> k" and "0 < n"
    and "k + n \<le> 2 ^ 53"
  shows "quantity_in (addToCart c p (of_int n)) (id_product p) = of_int (k + n)"
proof (cases "id_product p \<in> product_id ` set c")
  case True
  from assms have "\<bar>k + n\<bar> \<le> 2 ^ 53"
    by simp
  then have "js_add (of_int k) (of_int n) = (of_int (k + n) :: rat)"
    by (rule js_add_of_int)
  with True assms(1) show ?thesis
    by (simp add: quantity_in_addToCart)
next
  case False
  then have "quantity_in c (id_product p) = 0"
    by (rule quantity_in_absent)
  with assms(1) have "k = 0"
    by simp
  with False show ?thesis
    by (simp add: quantity_in_addToCart)
qed

lemma addToCart_contains: "id_product p \<in> product_id ` set (addToCart c p q)"
proof -
  have "id_product p \<in> set (map product_id (addToCart c p q))"
    unfolding addToCart_ids by simp
  then show ?thesis by simp
qed

lemma add_repeatedly_quantity:
  assumes "\<forall>n \<in> set ns. 0 < n"
    and "quantity_in c (id_product p) = of_int k" and "0 \<le> k"
    and "k + sum_list ns \<le> 2 ^ 53"
  shows "quantity_in (add_repeatedly c p (map of_int ns)) (id_product p)
           = of_int (k + sum_list ns)"
  using assms
proof (induction ns arbitrary: c k)
  case Nil
  then show ?case by (simp add: add_repeatedly_def)
next
  case (Cons n ns)
  from Cons.prems(1) have pos: "0 < n" and rest: "\<forall>m \<in> set ns. 0 < m"
    by simp_all
  from rest have "0 \<le> sum_list ns"
    by (induction ns) auto
  with Cons.prems(4) have bound: "k + n \<le> 2 ^ 53"
    by simp
  have step: "quantity_in (addToCart c p (of_int n)) (id_product p) = of_int (k + n)"
    using Cons.prems(2,3) pos bound by (rule quantity_in_addToCart_int)
  have "quantity_in (add_repeatedly (addToCart c p (of_int n)) p (map of_int ns)) (id_product p)
          = of_int ((k + n) + sum_list ns)"
    using rest step
  proof (rule Cons.IH)
    show "0 \<le> k + n"
      using Cons.prems(3) pos by simp
    show "k + n + sum_list ns \<le> 2 ^ 53"
      using Cons.prems(4) by (simp add: add.assoc)
  qed
  then show ?case
    by (simp add: add_repeatedly_def add.assoc)
qed

lemma add_repeatedly_distinct:
  "distinct (map product_id c) \<Longrightarrow> distinct (map product_id (add_repeatedly c p qs))"
  unfolding add_repeatedly_def
proof (induction qs arbitrary: c)
  case Nil
  then show ?case by simp
next
  case (Cons q qs)
  have "distinct (map product_id (addToCart c p q))"
    using Cons.prems by (auto simp: addToCart_ids)
  then show ?case using Cons.IH by simp
qed

lemma add_repeatedly_contains:
  "qs \<noteq> [] \<Longrightarrow> id_product p \<in> product_id ` set (add_repeatedly c p qs)"
  unfolding add_repeatedly_def
proof (induction qs arbitrary: c rule: rev_induct)
  case Nil
  then show ?case by simp
next
  case (snoc q qs)
  show ?case by (simp add: addToCart_contains)
qed

lemma distinct_ids_single:
  "distinct (map product_id c) \<Longrightarrow> pid \<in> product_id ` set c \<Longrightarrow>
   map quantity (filter (\<lambda>item. product_id item = pid) c) = [quantity_in c pid]"
proof (induction c)
  case Nil
  then show ?case by simp
next
  case (Cons a c)
  show ?case
  proof (cases "product_id a = pid")
    case True
    with Cons.prems have "pid \<notin> product_id ` set c"
      by simp
    then have "\<forall>x \<in> set c. product_id x \<noteq> pid"
      by blast
    then have "filter (\<lambda>item. product_id item = pid) c = []"
      by (simp add: filter_empty_conv)
    with True show ?thesis by (simp add: quantity_in_def)
  next
    case False
    with Cons show ?thesis by (auto simp: quantity_in_def)
  qed
qed

text \<open>
  Claim C5, as the code has it. Every cart reachable through the cart operations has
  at most one line item per product identifier, and so has the cart that results from
  adding one product to it any number of times. Let the quantities added be positive
  whole numbers, let the quantity the cart holds for the product before be a whole
  number \<open>k\<close> (0 when it holds no such item), and let \<open>k\<close> plus the sum of the added
  quantities be at most \<open>2 ^ 53\<close>, so that no addition rounds. After at least one such
  addition the cart holds exactly one line item for that product, and its quantity is
  \<open>k\<close> plus the sum of the added quantities: the additions merge into what is there,
  they do not replace it. From a cart without the product the quantity is the sum of
  the added quantities.
\<close>

theorem addToCart_merge:
  "distinct (map product_id (run_cart_ops ops)) \<and>
   distinct (map product_id (add_repeatedly (run_cart_ops ops) p qs)) \<and>
   (ns \<noteq> [] \<and> (\<forall>n \<in> set ns. 0 < n) \<and>
    quantity_in (run_cart_ops ops) (id_product p) = of_int k \<and> 0 \<le> k \<and>
    k + sum_list ns \<le> 2 ^ 53 \<longrightarrow>
      map quantity (filter (\<lambda>item. product_id item = id_product p)
                           (add_repeatedly (run_cart_ops ops) p (map of_int ns)))
        = [of_int (k + sum_list ns)]) \<and>
   (ns \<noteq> [] \<and> (\<forall>n \<in> set ns. 0 < n) \<and>
    id_product p \<notin> product_id ` set (run_cart_ops ops) \<and>
    sum_list ns \<le> 2 ^ 53 \<longrightarrow>
      map quantity (filter (\<lambda>item. product_id item = id_product p)
                           (add_repeatedly (run_cart_ops ops) p (map of_int ns)))
        = [of_int (sum_list ns)])"
proof -
  let ?c = "run_cart_ops ops"
  let ?c' = "add_repeatedly ?c p (map of_int ns)"
  have d: "distinct (map product_id ?c)"
    by (rule run_cart_ops_distinct)
  then have d': "distinct (map product_id (add_repeatedly ?c p qs))" for qs
    by (rule add_repeatedly_distinct)
  have merged: "map quantity (filter (\<lambda>item. product_id item = id_product p) ?c')
        = [of_int (k + sum_list ns)]"
    if "ns \<noteq> []" and pos: "\<forall>n \<in> set ns. 0 < n"
      and held: "quantity_in ?c (id_product p) = of_int k" and "0 \<le> k"
      and "k + sum_list ns \<le> 2 ^ 53" for k
  proof -
    from \<open>ns \<noteq> []\<close> have "map of_int ns \<noteq> ([] :: number list)"
      by simp
    then have "id_product p \<in> product_id ` set ?c'"
      by (rule add_repeatedly_contains)
    with d' have "map quantity (filter (\<lambda>item. product_id item = id_product p) ?c')
        = [quantity_in ?c' (id_product p)]"
      by (rule distinct_ids_single)
    also have "quantity_in ?c' (id_product p) = of_int (k + sum_list ns)"
      using pos held \<open>0 \<le> k\<close> \<open>k + sum_list ns \<le> 2 ^ 53\<close>
      by (rule add_repeatedly_quantity)
    finally show ?thesis .
  qed
  have fresh: "map quantity (filter (\<lambda>item. product_id item = id_product p) ?c')
        = [of_int (sum_list ns)]"
    if "ns \<noteq> []" and "\<forall>n \<in> set ns. 0 < n"
      and "id_product p \<notin> product_id ` set ?c" and "sum_list ns \<le> 2 ^ 53"
  proof -
    from that(3) have "quantity_in ?c (id_product p) = of_int 0"
      by (simp add: quantity_in_absent)
    with that(1,2,4) merged [of 0] show ?thesis
      by simp
  qed
  from d d' merged fresh show ?thesis
    by blast
qed

text \<open>Two instances: a cart without the product, and a cart that holds seven of it.\<close>

theorem addToCart_merge_witness:
  "map quantity (filter (\<lambda>item. product_id item = id_product chili)
      (add_repeatedly (run_cart_ops [Add turmeric 1]) chili (map of_int [1, 2, 4]))) = [7]
   \<and> map quantity (filter (\<lambda>item. product_id item = id_product chili)
      (add_repeatedly (run_cart_ops [Add chili 1, SetQuantity ''p-chili'' 7, Add turmeric 2])
         chili (map of_int [3]))) = [10]
   \<and> distinct (map product_id
      (add_repeatedly (run_cart_ops [Add chili 1, SetQuantity ''p-chili'' 7, Add turmeric 2])
         chili [3]))"
proof -
  have absent: "id_product chili \<notin> product_id ` set (run_cart_ops [Add turmeric 1])"
    by (simp add: run_cart_ops_def addToCart_def chili_def turmeric_def)
  have held: "quantity_in (run_cart_ops [Add chili 1, SetQuantity ''p-chili'' 7, Add turmeric 2])
      (id_product chili) = of_int 7"
    by (simp add: run_cart_ops_def addToCart_def updateQuantity_def quantity_in_def
        chili_def turmeric_def)
  from absent held
    addToCart_merge [of "[Add turmeric 1]" chili "[]" "[1, 2, 4]" 0]
    addToCart_merge [of "[Add chili 1, SetQuantity ''p-chili'' 7, Add turmeric 2]" chili "[3]"
      "[3]" 7]
  show ?thesis
    by simp
qed

text \<open>
  The quantity is not the sum of the added quantities when the cart already holds the
  product: one unit added, the quantity set to seven, then three units added gives
  ten, where the added quantities sum to three (or four, counting the first addition).
\<close>

theorem addToCart_sum_counterexample:
  "map quantity (filter (\<lambda>item. product_id item = id_product chili)
      (add_repeatedly (run_cart_ops [Add chili 1, SetQuantity ''p-chili'' 7]) chili [3]))
     \<noteq> [sum_list [3]]
   \<and> map quantity (filter (\<lambda>item. product_id item = id_product chili)
      (add_repeatedly (run_cart_ops [Add chili 1, SetQuantity ''p-chili'' 7]) chili [3]))
     \<noteq> [sum_list [1, 3]]"
proof -
  have "js_add (of_int 7) (of_int 3) = (of_int (7 + 3) :: rat)"
    by (rule js_add_of_int) simp
  then have ten: "js_add 7 3 = 10"
    by simp
  show ?thesis
    by (simp add: run_cart_ops_def add_repeatedly_def addToCart_def updateQuantity_def
        chili_def ten)
qed

text \<open>
  The bound is needed: from \<open>2 ^ 53\<close> on, adding one unit leaves the quantity as it is.
\<close>

lemma addToCart_rounds_from_2_53:
  "map quantity (run_cart_ops [Add chili 9007199254740992, Add chili 1]) = [9007199254740992]"
proof -
  have "js_add 9007199254740992 1 = 9007199254740992"
    by code_simp
  then show ?thesis
    by (simp add: run_cart_ops_def addToCart_def chili_def)
qed






text \<open>
  The scenario of the specification, two units at 5.00 and one at 3.50, has three
  items and the total 13.50.
\<close>

lemma totals_of_scenario:
  "getTotalItems [\<lparr>product_id = ''A'', product_name = ''A'', product_image = [],
                    quantity = 2, price = 5\<rparr>,
                  \<lparr>product_id = ''B'', product_name = ''B'', product_image = [],
                    quantity = 1, price = 7 / 2\<rparr>] = 3
   \<and> getTotalPrice [\<lparr>product_id = ''A'', product_name = ''A'', product_image = [],
                    quantity = 2, price = 5\<rparr>,
                  \<lparr>product_id = ''B'', product_name = ''B'', product_image = [],
                    quantity = 1, price = 7 / 2\<rparr>] = 27 / 2"
  by code_simp

text \<open>
  Claim C6. For every cart, \<^verbatim>\<open>updateQuantity(id, q)\<close> with \<open>q \<le> 0\<close> yields exactly the
  cart of \<^verbatim>\<open>removeFromCart(id)\<close>. With \<open>q \<ge> 1\<close> the cart keeps its length and the
  product identifier at every position; an item with the given identifier has its
  quantity replaced by \<open>q\<close> and nothing else changed, and every other item is
  untouched.
\<close>

theorem updateQuantity_remove_or_replace:
  "(q \<le> 0 \<longrightarrow> updateQuantity c pid q = removeFromCart c pid) \<and>
   (1 \<le> q \<longrightarrow>
      length (updateQuantity c pid q) = length c \<and>
      map product_id (updateQuantity c pid q) = map product_id c \<and>
      (\<forall>k < length c.
         updateQuantity c pid q ! k =
           (if product_id (c ! k) = pid then (c ! k)\<lparr>quantity := q\<rparr> else c ! k)))"
proof (intro conjI impI)
  assume "q \<le> 0"
  then show "updateQuantity c pid q = removeFromCart c pid"
    by (simp add: updateQuantity_def)
next
  assume q: "1 \<le> q"
  then show "length (updateQuantity c pid q) = length c"
    by (simp add: updateQuantity_def)
  from q show "map product_id (updateQuantity c pid q) = map product_id c"
    by (simp add: updateQuantity_ids)
  from q show "\<forall>k < length c.
         updateQuantity c pid q ! k =
           (if product_id (c ! k) = pid then (c ! k)\<lparr>quantity := q\<rparr> else c ! k)"
    by (simp add: updateQuantity_def)
qed

text \<open>An instance with two items in the cart, for the quantities 0 and 3.\<close>

theorem updateQuantity_remove_or_replace_witness:
  "updateQuantity (run_cart_ops [Add chili 2, Add turmeric 1]) ''p-chili'' 0
     = removeFromCart (run_cart_ops [Add chili 2, Add turmeric 1]) ''p-chili''
   \<and> map quantity (updateQuantity (run_cart_ops [Add chili 2, Add turmeric 1]) ''p-chili'' 3) = [3, 1]
   \<and> map product_id (updateQuantity (run_cart_ops [Add chili 2, Add turmeric 1]) ''p-chili'' 3)
       = [''p-chili'', ''p-turmeric'']"
  using updateQuantity_remove_or_replace [of 0 "run_cart_ops [Add chili 2, Add turmeric 1]" "''p-chili''"]
    updateQuantity_remove_or_replace [of 3 "run_cart_ops [Add chili 2, Add turmeric 1]" "''p-chili''"]
  by (simp add: run_cart_ops_def addToCart_def updateQuantity_def chili_def turmeric_def)


section \<open>Payment Status Reconciler: properties\<close>

lemma poll_exhausted:
  "maxAttempts \<le> attempts \<Longrightarrow> pollPaymentStatus server sid attempts = [SetPaymentStatus Timeout]"
  by (simp add: pollPaymentStatus.simps)

lemma poll_pending:
  "attempts < maxAttempts \<Longrightarrow> pending (server attempts) \<Longrightarrow>
   pollPaymentStatus server sid attempts =
     AxiosGetStatus sid # SetTimeout pollInterval # pollPaymentStatus server sid (attempts + 1)"
  by (subst pollPaymentStatus.simps)
     (auto simp: pending_def split: http_result.splits option.splits)

lemma poll_rejected:
  "attempts < maxAttempts \<Longrightarrow> server attempts = Rejected \<Longrightarrow>
   pollPaymentStatus server sid attempts =
     [AxiosGetStatus sid, ConsoleError ''Error checking payment status:'', SetPaymentStatus Error]"
  by (subst pollPaymentStatus.simps) simp

lemma poll_all_pending:
  "\<forall>k. attempts \<le> k \<and> k < maxAttempts \<longrightarrow> pending (server k) \<Longrightarrow>
   n = maxAttempts - attempts \<Longrightarrow>
   pollPaymentStatus server sid attempts =
     concat (replicate n [AxiosGetStatus sid, SetTimeout pollInterval])
       @ [SetPaymentStatus Timeout]"
proof (induction n arbitrary: attempts)
  case 0
  then show ?case by (simp add: poll_exhausted)
next
  case (Suc n)
  then have lt: "attempts < maxAttempts" and pend: "pending (server attempts)"
    by auto
  have "pollPaymentStatus server sid (attempts + 1) =
     concat (replicate n [AxiosGetStatus sid, SetTimeout pollInterval])
       @ [SetPaymentStatus Timeout]"
    using Suc.prems by (intro Suc.IH) auto
  with lt pend show ?case
    by (simp add: poll_pending [of attempts server sid])
qed

lemma final_status_last:
  "final_status (pre @ [SetPaymentStatus st]) = st"
  by (simp add: final_status_def)

lemma queries_of_rounds:
  "length (filter is_query
     (concat (replicate n [AxiosGetStatus sid, SetTimeout d]) @ [SetPaymentStatus st])) = n"
  by (induction n) simp_all

lemma poll_pending_prefix:
  "\<forall>j. attempts \<le> j \<and> j < k \<longrightarrow> pending (server j) \<Longrightarrow> k \<le> maxAttempts \<Longrightarrow>
   attempts + n = k \<Longrightarrow>
   pollPaymentStatus server sid attempts =
     concat (replicate n [AxiosGetStatus sid, SetTimeout pollInterval])
       @ pollPaymentStatus server sid k"
proof (induction n arbitrary: attempts)
  case 0
  then show ?case by simp
next
  case (Suc n)
  then have lt: "attempts < maxAttempts" and pend: "pending (server attempts)"
    by auto
  have "pollPaymentStatus server sid (attempts + 1) =
     concat (replicate n [AxiosGetStatus sid, SetTimeout pollInterval])
       @ pollPaymentStatus server sid k"
    using Suc.prems by (intro Suc.IH) auto
  with lt pend show ?case
    by (simp add: poll_pending [of attempts server sid])
qed

lemma queries_of_prefix:
  "length (filter is_query (concat (replicate n [AxiosGetStatus sid, SetTimeout d]))) = n"
  by (induction n) simp_all

lemma poll_ends_terminal:
  "\<exists>pre st. pollPaymentStatus server sid attempts = pre @ [SetPaymentStatus st]
     \<and> st \<noteq> Checking
     \<and> (\<forall>e \<in> set pre. \<forall>st'. e \<noteq> SetPaymentStatus st')"
proof (induction server sid attempts rule: pollPaymentStatus.induct)
  case (1 server sessionId attempts)
  show ?case
  proof (cases "maxAttempts \<le> attempts")
    case True
    then show ?thesis by (simp add: poll_exhausted)
  next
    case False
    show ?thesis
    proof (cases "pending (server attempts)")
      case True
      then obtain d where d: "server attempts = Resolved (Some d)"
        "payment_status d \<noteq> Some ''paid''" "status d \<noteq> Some ''expired''"
        by (auto simp: pending_def split: http_result.splits option.splits)
      from "1.IH" [OF False d(1) refl d(2) d(3)]
      obtain pre st where
        "pollPaymentStatus server sessionId (attempts + 1) = pre @ [SetPaymentStatus st]"
        "st \<noteq> Checking" "\<forall>e \<in> set pre. \<forall>st'. e \<noteq> SetPaymentStatus st'"
        by blast
      then have "pollPaymentStatus server sessionId attempts =
          (AxiosGetStatus sessionId # SetTimeout pollInterval # pre) @ [SetPaymentStatus st]
          \<and> st \<noteq> Checking
          \<and> (\<forall>e \<in> set (AxiosGetStatus sessionId # SetTimeout pollInterval # pre).
                \<forall>st'. e \<noteq> SetPaymentStatus st')"
        using False True by (simp add: poll_pending)
      then show ?thesis by blast
    next
      case np: False
      have "\<exists>pre st. pollPaymentStatus server sessionId attempts =
               AxiosGetStatus sessionId # pre @ [SetPaymentStatus st] \<and> st \<noteq> Checking \<and>
               (\<forall>e \<in> set pre. \<forall>st'. e \<noteq> SetPaymentStatus st')"
        using False np
        by (subst pollPaymentStatus.simps)
           (auto simp: pending_def split: http_result.splits option.splits)
      then obtain pre st where
        "pollPaymentStatus server sessionId attempts =
           (AxiosGetStatus sessionId # pre) @ [SetPaymentStatus st]" "st \<noteq> Checking"
        "\<forall>e \<in> set (AxiosGetStatus sessionId # pre). \<forall>st'. e \<noteq> SetPaymentStatus st'"
        by auto
      then show ?thesis by blast
    qed
  qed
qed

text \<open>
  Claim C3. When every status query of a session finds it open and unpaid, the run
  started by the success page consists of exactly five rounds, each a status query
  followed by the timer of 2000 ms that schedules the next step, and then sets the
  status to \<open>Timeout\<close>: five queries in all, consecutive queries separated by the fixed
  delay, and no query after the fifth.
\<close>

theorem poll_always_pending_times_out:
  assumes "\<forall>k < maxAttempts. pending (server k)"
  shows "pollPaymentStatus server sid 0 =
           concat (replicate 5 [AxiosGetStatus sid, SetTimeout 2000]) @ [SetPaymentStatus Timeout]
         \<and> length (filter is_query (pollPaymentStatus server sid 0)) = 5
         \<and> final_status (pollPaymentStatus server sid 0) = Timeout"
proof -
  have "pollPaymentStatus server sid 0 =
      concat (replicate maxAttempts [AxiosGetStatus sid, SetTimeout pollInterval])
        @ [SetPaymentStatus Timeout]"
  proof (rule poll_all_pending)
    show "\<forall>k. 0 \<le> k \<and> k < maxAttempts \<longrightarrow> pending (server k)"
      using assms by blast
    show "maxAttempts = maxAttempts - 0"
      by simp
  qed
  then have run: "pollPaymentStatus server sid 0 =
      concat (replicate 5 [AxiosGetStatus sid, SetTimeout 2000]) @ [SetPaymentStatus Timeout]"
    by (simp only: maxAttempts_def pollInterval_def)
  show ?thesis
    unfolding run by (simp only: final_status_last queries_of_rounds)
qed

text \<open>The run for a session that stays open and unpaid, written out.\<close>

theorem poll_always_pending_times_out_witness:
  "pollPaymentStatus (\<lambda>k. open_unpaid) ''cs_test_1'' 0 =
     [AxiosGetStatus ''cs_test_1'', SetTimeout 2000,
      AxiosGetStatus ''cs_test_1'', SetTimeout 2000,
      AxiosGetStatus ''cs_test_1'', SetTimeout 2000,
      AxiosGetStatus ''cs_test_1'', SetTimeout 2000,
      AxiosGetStatus ''cs_test_1'', SetTimeout 2000,
      SetPaymentStatus Timeout]
   \<and> length (filter is_query (pollPaymentStatus (\<lambda>k. open_unpaid) ''cs_test_1'' 0)) = 5
   \<and> final_status (pollPaymentStatus (\<lambda>k. open_unpaid) ''cs_test_1'' 0) = Timeout"
proof -
  have h: "\<forall>k < maxAttempts. pending ((\<lambda>k. open_unpaid) k)"
    by (simp add: pending_def open_unpaid_def)
  have five: "replicate 5 x = [x, x, x, x, x]" for x :: "reconciler_effect list"
    by (simp add: eval_nat_numeral)
  from poll_always_pending_times_out [OF h, of "''cs_test_1''"] show ?thesis
    by (simp add: five final_status_def)
qed

text \<open>
  Claim C4. Whatever the number \<open>k\<close> of earlier queries that found the session pending,
  when the next query (still within the budget) is rejected, the run ends right
  there: its remaining effects are the console message and the setter of the status
  \<open>Error\<close>. The run has issued \<open>k + 1\<close> queries, the rejected one being the last, and no
  timer is set for a further attempt although attempts remain.
\<close>

theorem poll_transport_failure_is_terminal:
  assumes "k < maxAttempts"
    and "\<forall>j < k. pending (server j)"
    and "server k = Rejected"
  shows "pollPaymentStatus server sid 0 =
           concat (replicate k [AxiosGetStatus sid, SetTimeout 2000])
             @ [AxiosGetStatus sid, ConsoleError ''Error checking payment status:'',
                SetPaymentStatus Error]
         \<and> length (filter is_query (pollPaymentStatus server sid 0)) = k + 1
         \<and> final_status (pollPaymentStatus server sid 0) = Error"
proof -
  have "pollPaymentStatus server sid 0 =
      concat (replicate k [AxiosGetStatus sid, SetTimeout pollInterval])
        @ pollPaymentStatus server sid k"
  proof (rule poll_pending_prefix)
    show "\<forall>j. 0 \<le> j \<and> j < k \<longrightarrow> pending (server j)"
      using assms(2) by blast
    show "k \<le> maxAttempts"
      using assms(1) by simp
    show "0 + k = k"
      by simp
  qed
  also have "pollPaymentStatus server sid k =
      [AxiosGetStatus sid, ConsoleError ''Error checking payment status:'',
       SetPaymentStatus Error]"
    using assms(1,3) by (rule poll_rejected)
  finally have run: "pollPaymentStatus server sid 0 =
      concat (replicate k [AxiosGetStatus sid, SetTimeout 2000])
        @ [AxiosGetStatus sid, ConsoleError ''Error checking payment status:'',
           SetPaymentStatus Error]"
    by (simp only: pollInterval_def)
  have last: "final_status (pre @ [a, b, SetPaymentStatus st]) = st" for pre a b st
    using final_status_last [of "pre @ [a, b]" st] by simp
  show ?thesis
    unfolding run by (simp add: queries_of_prefix last)
qed

text \<open>A rejection at the third query, and a rejection at the first.\<close>

theorem poll_transport_failure_is_terminal_witness:
  "pollPaymentStatus (\<lambda>k. if k < 2 then open_unpaid else Rejected) ''cs_test_2'' 0 =
     [AxiosGetStatus ''cs_test_2'', SetTimeout 2000,
      AxiosGetStatus ''cs_test_2'', SetTimeout 2000,
      AxiosGetStatus ''cs_test_2'', ConsoleError ''Error checking payment status:'',
      SetPaymentStatus Error]
   \<and> pollPaymentStatus (\<lambda>k. Rejected) ''cs_test_2'' 0 =
     [AxiosGetStatus ''cs_test_2'', ConsoleError ''Error checking payment status:'',
      SetPaymentStatus Error]"
proof -
  have two: "replicate 2 x = [x, x]" for x :: "reconciler_effect list"
    by (simp add: eval_nat_numeral)
  have a: "(2::nat) < maxAttempts" and a0: "(0::nat) < maxAttempts"
    by (simp_all add: maxAttempts_def)
  have b: "\<forall>j < (2::nat). pending ((\<lambda>k. if k < 2 then open_unpaid else Rejected) j)"
    by (simp add: pending_def open_unpaid_def)
  have b0: "\<forall>j < (0::nat). pending ((\<lambda>k. Rejected) j)"
    by simp
  from poll_transport_failure_is_terminal [OF a b, of "''cs_test_2''"]
    poll_transport_failure_is_terminal [OF a0 b0, of "''cs_test_2''"]
  show ?thesis
    by (simp add: two)
qed

text \<open>
  Claim C7, as the code has it. Within one run of the polling function, as one run of
  the effect hook starts it, the statuses \<open>Success\<close>, \<open>Expired\<close>, \<open>Error\<close> and \<open>Timeout\<close>
  are terminal: every run ends by setting one of them, and wherever a run sets a
  status, that status is one of the four and nothing follows it in the run, no status
  query, no timer and no other setter.
\<close>

theorem terminal_states_are_final:
  "(\<exists>pre st. pollPaymentStatus server sid attempts = pre @ [SetPaymentStatus st] \<and> terminal st) \<and>
   (\<forall>pre st post.
      pollPaymentStatus server sid attempts = pre @ SetPaymentStatus st # post \<longrightarrow>
      terminal st \<and> post = [])"
proof -
  obtain pre0 st0 where
    run: "pollPaymentStatus server sid attempts = pre0 @ [SetPaymentStatus st0]"
    and active: "st0 \<noteq> Checking"
    and none: "\<forall>e \<in> set pre0. \<forall>st'. e \<noteq> SetPaymentStatus st'"
    using poll_ends_terminal by blast
  have t0: "terminal st0"
    using active by (cases st0) simp_all
  have "terminal st \<and> post = []"
    if eq: "pollPaymentStatus server sid attempts = pre @ SetPaymentStatus st # post"
    for pre st post
  proof (cases post rule: rev_cases)
    case Nil
    with eq run have "st = st0" by simp
    with t0 Nil show ?thesis by simp
  next
    case (snoc ys y)
    with eq run have "(pre @ SetPaymentStatus st # ys) @ [y] = pre0 @ [SetPaymentStatus st0]"
      by simp
    then have "pre @ SetPaymentStatus st # ys = pre0"
      by (simp only: append1_eq_conv)
    then have "SetPaymentStatus st \<in> set pre0"
      by auto
    with none show ?thesis by blast
  qed
  with run t0 show ?thesis by blast
qed

text \<open>A run that finds the session paid at its second query.\<close>

theorem terminal_states_are_final_witness:
  "pollPaymentStatus (\<lambda>k. if k < 1 then open_unpaid else paid_complete) ''cs_test_3'' 0 =
     [AxiosGetStatus ''cs_test_3'', SetTimeout 2000, AxiosGetStatus ''cs_test_3'']
       @ SetPaymentStatus Success # []
   \<and> terminal Success"
  using terminal_states_are_final
    [of "\<lambda>k. if k < 1 then open_unpaid else paid_complete" "''cs_test_3''" 0]
  by (simp add: pollPaymentStatus.simps maxAttempts_def pollInterval_def
      open_unpaid_def paid_complete_def)

text \<open>
  Over the life of the page the terminal statuses are not final. When the location
  changes after a run has ended in \<open>Timeout\<close>, the hook runs again for the same
  session: it issues a further status query and, the session being paid by then, sets
  the status \<open>Success\<close>.
\<close>

theorem hook_rerun_counterexample:
  "CheckoutSuccess_hook_runs
     [(\<lambda>k. open_unpaid, [(''session_id'', ''cs_test_3'')]),
      (\<lambda>k. paid_complete, [(''session_id'', ''cs_test_3'')])]
   = [SetSessionId ''cs_test_3'',
      AxiosGetStatus ''cs_test_3'', SetTimeout 2000,
      AxiosGetStatus ''cs_test_3'', SetTimeout 2000,
      AxiosGetStatus ''cs_test_3'', SetTimeout 2000,
      AxiosGetStatus ''cs_test_3'', SetTimeout 2000,
      AxiosGetStatus ''cs_test_3'', SetTimeout 2000,
      SetPaymentStatus Timeout,
      SetSessionId ''cs_test_3'',
      AxiosGetStatus ''cs_test_3'',
      SetPaymentStatus Success]"
proof -
  have five: "replicate 5 x = [x, x, x, x, x]" for x :: "reconciler_effect list"
    by (simp add: eval_nat_numeral)
  have "pollPaymentStatus (\<lambda>k. open_unpaid) ''cs_test_3'' 0 =
      concat (replicate maxAttempts [AxiosGetStatus ''cs_test_3'', SetTimeout pollInterval])
        @ [SetPaymentStatus Timeout]"
  proof (rule poll_all_pending)
    show "\<forall>k. 0 \<le> k \<and> k < maxAttempts \<longrightarrow> pending ((\<lambda>k. open_unpaid) k)"
      by (simp add: pending_def open_unpaid_def)
    show "maxAttempts = maxAttempts - 0"
      by simp
  qed
  then have first: "pollPaymentStatus (\<lambda>k. open_unpaid) ''cs_test_3'' 0 =
      [AxiosGetStatus ''cs_test_3'', SetTimeout 2000,
       AxiosGetStatus ''cs_test_3'', SetTimeout 2000,
       AxiosGetStatus ''cs_test_3'', SetTimeout 2000,
       AxiosGetStatus ''cs_test_3'', SetTimeout 2000,
       AxiosGetStatus ''cs_test_3'', SetTimeout 2000,
       SetPaymentStatus Timeout]"
    by (simp add: maxAttempts_def pollInterval_def five)
  have second: "pollPaymentStatus (\<lambda>k. paid_complete) ''cs_test_3'' 0 =
      [AxiosGetStatus ''cs_test_3'', SetPaymentStatus Success]"
    by (simp add: pollPaymentStatus.simps maxAttempts_def paid_complete_def)
  show ?thesis
    by (simp add: CheckoutSuccess_hook_runs_def CheckoutSuccess_useEffect_def urlParams_get_def
        first second)
qed

text \<open>
  Claim C8. When the query string of the success page has no parameter named
  \<^verbatim>\<open>session_id\<close>, the effect hook does nothing: the polling function is not called, no
  status query is issued and no state is set.
\<close>

theorem no_session_id_no_reconciler:
  assumes "''session_id'' \<notin> fst ` set urlParams"
  shows "CheckoutSuccess_useEffect server urlParams = []"
proof -
  from assms have "map_of urlParams ''session_id'' = None"
    by (simp add: map_of_eq_None_iff)
  then show ?thesis
    by (simp add: CheckoutSuccess_useEffect_def urlParams_get_def)
qed

text \<open>A query string with another parameter only.\<close>

theorem no_session_id_no_reconciler_witness:
  "''session_id'' \<notin> fst ` set [(''utm_source'', ''mail'')] \<and>
   CheckoutSuccess_useEffect (\<lambda>k. paid_complete) [(''utm_source'', ''mail'')] = []"
proof -
  have h: "''session_id'' \<notin> fst ` set [(''utm_source'', ''mail'')]"
    by simp
  from h no_session_id_no_reconciler [OF h, of "\<lambda>k. paid_complete"] show ?thesis
    by simp
qed


section \<open>Checkout Initiator: properties\<close>

text \<open>
  Claim C9. With an empty cart or an empty customer email, \<^verbatim>\<open>handleCheckout\<close> returns
  at once: the state is unchanged and the list of effects is empty, so no request is
  posted to the Session Service.
\<close>

theorem handleCheckout_rejects_invalid:
  assumes "cartItems s = [] \<or> customerEmail s = []"
  shows "handleCheckout s origin response = (s, [])"
  using assms by (auto simp: handleCheckout_def)

text \<open>An empty email with a filled cart, and an empty cart with an email.\<close>

theorem handleCheckout_rejects_invalid_witness:
  "handleCheckout \<lparr>cartItems = run_cart_ops [Add chili 2], customerEmail = [],
                    isCheckingOut = False\<rparr> ''https://shop.example'' Rejected
     = (\<lparr>cartItems = run_cart_ops [Add chili 2], customerEmail = [], isCheckingOut = False\<rparr>, [])
   \<and> handleCheckout \<lparr>cartItems = ([] :: cart), customerEmail = ''a@b.example'',
                    isCheckingOut = False\<rparr> ''https://shop.example'' Rejected
     = (\<lparr>cartItems = [], customerEmail = ''a@b.example'', isCheckingOut = False\<rparr>, [])"
  using handleCheckout_rejects_invalid
      [of "\<lparr>cartItems = run_cart_ops [Add chili 2], customerEmail = [], isCheckingOut = False\<rparr>"
          "''https://shop.example''" Rejected]
    handleCheckout_rejects_invalid
      [of "\<lparr>cartItems = ([] :: cart), customerEmail = ''a@b.example'', isCheckingOut = False\<rparr>"
          "''https://shop.example''" Rejected]
  by simp

text \<open>
  Claim C10. Whatever the state, the origin and the answer of the Session Service
  (rejection of the input, failure of the service, or a session and its redirect),
  the cart in the state \<^verbatim>\<open>handleCheckout\<close> leaves is the cart it found: the same line
  items with the same quantities and prices. The checkout does not clear the cart.
\<close>

theorem handleCheckout_keeps_cart:
  "cartItems (fst (handleCheckout s origin response)) = cartItems s"
  by (simp add: handleCheckout_def Let_def)

text \<open>A successful checkout of a cart with one item, with its effects.\<close>

theorem handleCheckout_keeps_cart_witness:
  "cartItems (fst (handleCheckout
      \<lparr>cartItems = run_cart_ops [Add chili 2], customerEmail = ''a@b.example'',
        isCheckingOut = False\<rparr> ''https://shop.example''
      (Resolved (Some \<lparr>url = Some ''https://pay.example/c/1''\<rparr>))))
    = run_cart_ops [Add chili 2]
   \<and> snd (handleCheckout
      \<lparr>cartItems = run_cart_ops [Add chili 2], customerEmail = ''a@b.example'',
        isCheckingOut = False\<rparr> ''https://shop.example''
      (Resolved (Some \<lparr>url = Some ''https://pay.example/c/1''\<rparr>)))
    = [SetIsCheckingOut True,
       AxiosPostSession \<lparr>items = [\<lparr>product_id_item = ''p-chili'', quantity_item = 2,
                                     price_item = 599\<rparr>],
                          customer_email = ''a@b.example'',
                          origin_url = ''https://shop.example''\<rparr>,
       SetLocationHref ''https://pay.example/c/1'',
       SetIsCheckingOut False]"
  using handleCheckout_keeps_cart
      [of "\<lparr>cartItems = run_cart_ops [Add chili 2], customerEmail = ''a@b.example'',
            isCheckingOut = False\<rparr>" "''https://shop.example''"
          "Resolved (Some \<lparr>url = Some ''https://pay.example/c/1''\<rparr>)"]
  by (simp add: handleCheckout_def Let_def run_cart_ops_def addToCart_def chili_def)


section \<open>Reporting of failures\<close>

text \<open>
  Claim C2, on the code. The success page, entered with a session that stays open and
  unpaid, ends in the status \<open>Timeout\<close>; entered with a session the service reports as
  expired, it ends in \<open>Expired\<close>. For both statuses the page shows no panel: neither a
  message nor an action. The status \<open>Error\<close>, set a few lines further down in the same
  function, has a panel with a message and a button.
\<close>

theorem timeout_and_expired_show_nothing:
  "final_status (CheckoutSuccess_useEffect (\<lambda>k. open_unpaid) [(''session_id'', ''cs_test_5'')])
     = Timeout
   \<and> CheckoutSuccess_render Timeout = []
   \<and> final_status (CheckoutSuccess_useEffect (\<lambda>k. expired_unpaid) [(''session_id'', ''cs_test_5'')])
     = Expired
   \<and> CheckoutSuccess_render Expired = []
   \<and> \<not> reports_failure (CheckoutSuccess_render Timeout)
   \<and> \<not> reports_failure (CheckoutSuccess_render Expired)
   \<and> reports_failure (CheckoutSuccess_render Error)"
proof -
  have pend: "\<forall>k < maxAttempts. pending ((\<lambda>k. open_unpaid) k)"
    by (simp add: pending_def open_unpaid_def)
  have "pollPaymentStatus (\<lambda>k. open_unpaid) ''cs_test_5'' 0 =
      concat (replicate maxAttempts [AxiosGetStatus ''cs_test_5'', SetTimeout pollInterval])
        @ [SetPaymentStatus Timeout]"
  proof (rule poll_all_pending)
    show "\<forall>k. 0 \<le> k \<and> k < maxAttempts \<longrightarrow> pending ((\<lambda>k. open_unpaid) k)"
      using pend by blast
    show "maxAttempts = maxAttempts - 0"
      by simp
  qed
  then have "final_status (SetSessionId ''cs_test_5'' #
      pollPaymentStatus (\<lambda>k. open_unpaid) ''cs_test_5'' 0) = Timeout"
    using final_status_last
      [of "SetSessionId ''cs_test_5'' #
           concat (replicate maxAttempts [AxiosGetStatus ''cs_test_5'', SetTimeout pollInterval])"
          Timeout]
    by simp
  then have open_run: "final_status
      (CheckoutSuccess_useEffect (\<lambda>k. open_unpaid) [(''session_id'', ''cs_test_5'')]) = Timeout"
    by (simp add: CheckoutSuccess_useEffect_def urlParams_get_def)
  have expired_run: "final_status
      (CheckoutSuccess_useEffect (\<lambda>k. expired_unpaid) [(''session_id'', ''cs_test_5'')]) = Expired"
    by (simp add: CheckoutSuccess_useEffect_def urlParams_get_def pollPaymentStatus.simps
        maxAttempts_def expired_unpaid_def final_status_def)
  from open_run expired_run show ?thesis
    by (simp add: CheckoutSuccess_render_def reports_failure_def)
qed

end
